theory Spec2Isabelle
  imports Complex_Main
begin

section \<open>The retrieval pipeline of the LOCALRAG notebook\<close>

text \<open>
  The notebook chains four steps: paragraph chunking, embedding of the chunks,
  a flat L2 index over the embeddings, and a query that maps the five nearest
  positions back to chunk strings.  The notebook's own functions are
  \<^verbatim>\<open>chunk_and_embed_text\<close>, \<^verbatim>\<open>create_faiss_index\<close> and \<^verbatim>\<open>search_query\<close>;
  the embedding model, the array type and the vector index are libraries.
  Numbers are reals: the rounding of 32-bit floats is outside this model.
\<close>

subsection \<open>Errors\<close>

text \<open>
  The source catches nothing, so every library exception leaves the call.
  The names are those of the specification's taxonomy:
  \<open>IndexOutOfRangeError\<close> is Python's \<^verbatim>\<open>IndexError\<close> (a list or a shape tuple
  read out of range), \<open>DimensionMismatchError\<close> is the failure of the index
  library on vectors whose length is not the index's dimensionality.
\<close>

datatype error = DimensionMismatchError | IndexOutOfRangeError

subsection \<open>Chunking: \<^verbatim>\<open>text.split("\n\n")\<close>\<close>

definition NL :: char where
  "NL = CHR 0x0A"

definition sep :: string where
  "sep = [NL, NL]"

text \<open>
  Python's \<^verbatim>\<open>str.split(sep)\<close> for the two-character separator: the text is
  scanned from the left, every separator found closes the current piece, the
  scan resumes after the separator, and no piece is dropped.  A \<open>string\<close> is
  a list of bytes; the separator is two line feeds in either reading, and no
  byte of a multi-byte character is a line feed.
\<close>

fun split_acc :: "string \<Rightarrow> string \<Rightarrow> string list" where
  "split_acc cur (a # b # rest) =
     (if a = NL \<and> b = NL then cur # split_acc [] rest
      else split_acc (cur @ [a]) (b # rest))"
| "split_acc cur [a] = [cur @ [a]]"
| "split_acc cur [] = [cur]"

definition split_paragraphs :: "string \<Rightarrow> string list" where
  "split_paragraphs text = split_acc [] text"

text \<open>
  Python's \<^verbatim>\<open>text.count("\n\n")\<close>: the number of occurrences of the separator,
  counted from the left without overlap.
\<close>

fun count_sep :: "string \<Rightarrow> nat" where
  "count_sep (a # b # rest) =
     (if a = NL \<and> b = NL then Suc (count_sep rest) else count_sep (b # rest))"
| "count_sep [a] = 0"
| "count_sep [] = 0"

text \<open>Python's \<^verbatim>\<open>"\n\n".join(chunks)\<close>.\<close>

fun join_sep :: "string list \<Rightarrow> string" where
  "join_sep [] = []"
| "join_sep [c] = c"
| "join_sep (c # c' # cs) = c @ sep @ join_sep (c' # cs)"

subsection \<open>Embedding: \<^verbatim>\<open>model.encode\<close>\<close>

type_synonym vec = "real list"

text \<open>
  Modelled from the spec: the pretrained sentence-embedding model is a library
  artifact that is not part of the sources.  The specification gives
  \<^verbatim>\<open>encode(sequence of strings) -> sequence of fixed-length vectors\<close>,
  deterministic and in positional correspondence with its input.  The model is
  the parameter \<open>emb\<close>, the embedding of one sentence; \<open>fixed_dim emb n\<close> says
  that all its vectors have \<open>n\<close> components.
\<close>

definition encode :: "(string \<Rightarrow> vec) \<Rightarrow> string list \<Rightarrow> vec list" where
  "encode emb sentences = map emb sentences"

definition fixed_dim :: "(string \<Rightarrow> vec) \<Rightarrow> nat \<Rightarrow> bool" where
  "fixed_dim emb n \<longleftrightarrow> (\<forall>s. length (emb s) = n)"

text \<open>
  \<^verbatim>\<open>
  def chunk_and_embed_text(text):
      chunks = text.split("\n\n")
      embeddings = model.encode(chunks)
      return chunks, embeddings
  \<close>
\<close>

definition chunk_and_embed_text :: "(string \<Rightarrow> vec) \<Rightarrow> string \<Rightarrow> string list \<times> vec list" where
  "chunk_and_embed_text emb text =
     (let chunks = split_paragraphs text;
          embeddings = encode emb chunks
      in (chunks, embeddings))"

subsection \<open>The flat L2 index\<close>

text \<open>
  Modelled from the spec: the vector index library is not part of the sources.
  The specification gives an exhaustive-search structure sized to one
  dimensionality, \<^verbatim>\<open>add(vectors)\<close> that appends in insertion order and fails
  with a DimensionMismatchError on vectors of another length, and
  \<^verbatim>\<open>search(query_vector, k) -> (distances, positions)\<close> by squared Euclidean
  distance, positions being insertion positions.  An index is its
  dimensionality \<open>d\<close> and the stored vectors \<open>xb\<close>; \<open>ntotal\<close> is their number.
\<close>

record index_flat =
  d :: nat
  xb :: "vec list"

definition ntotal :: "index_flat \<Rightarrow> nat" where
  "ntotal index = length (xb index)"

definition IndexFlatL2 :: "nat \<Rightarrow> index_flat" where
  "IndexFlatL2 dimension = \<lparr>d = dimension, xb = []\<rparr>"

definition index_add :: "index_flat \<Rightarrow> vec list \<Rightarrow> error + index_flat" where
  "index_add index x =
     (if list_all (\<lambda>v. length v = d index) x
      then Inr (index\<lparr>xb := xb index @ x\<rparr>)
      else Inl DimensionMismatchError)"

definition fvec_L2sqr :: "vec \<Rightarrow> vec \<Rightarrow> real" where
  "fvec_L2sqr x y = sum_list (map (\<lambda>(a, b). (a - b)\<^sup>2) (zip x y))"

text \<open>
  Modelled from the spec: a result slot for which the index holds no vector.
  The specification leaves open what the search does when \<open>k\<close> exceeds the
  number of stored vectors (the condition is not guarded in the source), and
  the library is not part of the sources.  The model follows
  the library's own convention for missing neighbours: the slot carries the
  position \<open>-1\<close> and the largest 32-bit float as distance.
\<close>

definition FLT_MAX :: real where
  "FLT_MAX = 340282346638528859811704183484516925440"

definition no_result :: "real \<times> int" where
  "no_result = (FLT_MAX, - 1)"

text \<open>
  Modelled from the spec: the exhaustive search of the index library, by
  squared Euclidean distance.  \<open>ranked\<close> lists the stored vectors with their
  distance to the query and their insertion position, nearest first and, among
  equal distances, the earlier position first; \<open>knn_L2sqr\<close> keeps the first \<open>k\<close>
  and fills the slots that remain.
\<close>

definition ranked :: "vec list \<Rightarrow> vec \<Rightarrow> (real \<times> int) list" where
  "ranked y x = sort_key fst (zip (map (fvec_L2sqr x) y) (map int [0..<length y]))"

definition knn_L2sqr :: "vec list \<Rightarrow> vec \<Rightarrow> nat \<Rightarrow> (real \<times> int) list" where
  "knn_L2sqr y x k = take k (ranked y x @ replicate (k - length y) no_result)"

text \<open>
  Modelled from the spec: \<^verbatim>\<open>D, I = index.search(x, k)\<close> of the index library,
  one row of \<open>k\<close> distances and one row of \<open>k\<close> positions for every query row of
  \<open>x\<close>; a query row of another length than the index's dimensionality is
  refused, as \<^verbatim>\<open>add\<close> refuses it.
\<close>

definition index_search ::
  "index_flat \<Rightarrow> vec list \<Rightarrow> nat \<Rightarrow> error + (real list list \<times> int list list)" where
  "index_search index x k =
     (if list_all (\<lambda>q. length q = d index) x
      then (let res = map (\<lambda>q. knn_L2sqr (xb index) q k) x
            in Inr (map (map fst) res, map (map snd) res))
      else Inl DimensionMismatchError)"

subsection \<open>Building the index\<close>

text \<open>
  Modelled from the spec: \<^verbatim>\<open>embeddings.shape[1]\<close> of the array library, the
  dimensionality inferred from the first vector.  The batch of vectors is the
  list of its rows, and a batch without rows has no second axis to read.
\<close>

definition shape1 :: "vec list \<Rightarrow> error + nat" where
  "shape1 embeddings =
     (case embeddings of [] \<Rightarrow> Inl IndexOutOfRangeError | v # _ \<Rightarrow> Inr (length v))"

text \<open>
  \<^verbatim>\<open>
  def create_faiss_index(embeddings):
      index = faiss.IndexFlatL2(embeddings.shape[1])
      index.add(embeddings)
      return index
  \<close>
\<close>

definition create_faiss_index :: "vec list \<Rightarrow> error + index_flat" where
  "create_faiss_index embeddings =
     (case shape1 embeddings of
        Inl e \<Rightarrow> Inl e
      | Inr dimension \<Rightarrow> index_add (IndexFlatL2 dimension) embeddings)"

subsection \<open>Querying\<close>

text \<open>
  Python's \<^verbatim>\<open>xs[i]\<close> on a list: a negative index counts from the end, and an
  index outside \<open>[-len, len)\<close> raises \<^verbatim>\<open>IndexError\<close>.
\<close>

definition getitem :: "'a list \<Rightarrow> int \<Rightarrow> error + 'a" where
  "getitem xs i =
     (if 0 \<le> i \<and> i < int (length xs) then Inr (xs ! nat i)
      else if i < 0 \<and> - int (length xs) \<le> i then Inr (xs ! nat (int (length xs) + i))
      else Inl IndexOutOfRangeError)"

text \<open>
  The comprehension \<^verbatim>\<open>[chunks[i] for i in row]\<close>: the first failing lookup
  ends it.
\<close>

fun gather :: "'a list \<Rightarrow> int list \<Rightarrow> error + 'a list" where
  "gather chunks [] = Inr []"
| "gather chunks (i # row) =
     (case getitem chunks i of
        Inl e \<Rightarrow> Inl e
      | Inr c \<Rightarrow> (case gather chunks row of Inl e \<Rightarrow> Inl e | Inr cs \<Rightarrow> Inr (c # cs)))"

text \<open>
  \<^verbatim>\<open>
  def search_query(query, index, chunks):
      query_embedding = model.encode([query])
      D, I = index.search(query_embedding, k=5)
      result_chunks = [chunks[i] for i in I[0]]
      return result_chunks
  \<close>
\<close>

definition search_query ::
  "(string \<Rightarrow> vec) \<Rightarrow> string \<Rightarrow> index_flat \<Rightarrow> string list \<Rightarrow> error + string list" where
  "search_query emb query index chunks =
     (let query_embedding = encode emb [query]
      in case index_search index query_embedding 5 of
           Inl e \<Rightarrow> Inl e
         | Inr (D, I) \<Rightarrow>
             (case getitem I 0 of
                Inl e \<Rightarrow> Inl e
              | Inr row \<Rightarrow> gather chunks row))"

subsection \<open>A concrete model for the examples\<close>

text \<open>
  The examples below need one embedding model to run the pipeline on: the
  one-component vector holding the length of the sentence.
\<close>

definition toy_emb :: "string \<Rightarrow> vec" where
  "toy_emb s = [real (length s)]"

section \<open>Properties\<close>

subsection \<open>Chunking\<close>

lemma split_acc_not_Nil: "split_acc cur s \<noteq> []"
  by (induction cur s rule: split_acc.induct) auto

lemma length_split_acc: "length (split_acc cur s) = Suc (count_sep s)"
  by (induction cur s rule: split_acc.induct) auto

lemma join_sep_Cons: "cs \<noteq> [] \<Longrightarrow> join_sep (c # cs) = c @ sep @ join_sep cs"
  by (cases cs) auto

lemma join_split_acc: "join_sep (split_acc cur s) = cur @ s"
  by (induction cur s rule: split_acc.induct)
     (auto simp: join_sep_Cons split_acc_not_Nil sep_def)

subsection \<open>List lookup and the comprehension\<close>

lemma getitem_Inr_iff:
  "(\<exists>c. getitem xs i = Inr c) \<longleftrightarrow> - int (length xs) \<le> i \<and> i < int (length xs)"
  by (auto simp: getitem_def Let_def)

lemma getitem_nonneg: "0 \<le> i \<Longrightarrow> i < int (length xs) \<Longrightarrow> getitem xs i = Inr (xs ! nat i)"
  by (simp add: getitem_def Let_def)

lemma getitem_minus1: "xs \<noteq> [] \<Longrightarrow> getitem xs (- 1) = Inr (last xs)"
  by (cases xs rule: rev_cases) (auto simp: getitem_def Let_def nth_append)

lemma getitem_error: "getitem xs i = Inl e \<Longrightarrow> e = IndexOutOfRangeError"
  by (auto simp: getitem_def Let_def split: if_splits)

lemma gather_length: "gather chunks row = Inr r \<Longrightarrow> length r = length row"
  by (induction row arbitrary: r) (auto split: sum.splits)

lemma gather_error: "gather chunks row = Inl e \<Longrightarrow> e = IndexOutOfRangeError"
  by (induction row) (auto split: sum.splits dest: getitem_error)

lemma gather_Inl_iff:
  "(\<exists>e. gather chunks row = Inl e) \<longleftrightarrow>
     (\<exists>i\<in>set row. i < - int (length chunks) \<or> int (length chunks) \<le> i)"
proof (induction row)
  case Nil
  show ?case by simp
next
  case (Cons i row)
  show ?case
  proof (cases "getitem chunks i")
    case (Inl e)
    with getitem_Inr_iff [of chunks i] show ?thesis by auto
  next
    case (Inr c)
    with getitem_Inr_iff [of chunks i] Cons.IH show ?thesis
      by (auto split: sum.splits)
  qed
qed

lemma gather_append:
  "gather chunks (r1 @ r2) =
     (case gather chunks r1 of Inl e \<Rightarrow> Inl e
      | Inr c1 \<Rightarrow> (case gather chunks r2 of Inl e \<Rightarrow> Inl e | Inr c2 \<Rightarrow> Inr (c1 @ c2)))"
  by (induction r1) (auto split: sum.splits)

lemma gather_nonneg:
  "\<forall>i\<in>set row. 0 \<le> i \<and> i < int (length chunks) \<Longrightarrow>
     gather chunks row = Inr (map (\<lambda>i. chunks ! nat i) row)"
  by (induction row) (auto simp: getitem_nonneg)

lemma gather_replicate_minus1:
  "chunks \<noteq> [] \<Longrightarrow> gather chunks (replicate n (- 1)) = Inr (replicate n (last chunks))"
  by (induction n) (auto simp: getitem_minus1)

subsection \<open>Distances and ranking\<close>

lemma length_ranked: "length (ranked y x) = length y"
  by (simp add: ranked_def)

lemma set_ranked:
  "set (ranked y x) = (\<lambda>j. (fvec_L2sqr x (y ! j), int j)) ` {..<length y}"
proof -
  have "zip (map (fvec_L2sqr x) y) (map int [0..<length y]) =
        map (\<lambda>j. (fvec_L2sqr x (y ! j), int j)) [0..<length y]"
    by (rule nth_equalityI) simp_all
  then show ?thesis
    by (simp add: ranked_def atLeast_upt)
qed

lemma distinct_labels_ranked: "distinct (map snd (ranked y x))"
proof -
  have "distinct (map snd (zip (map (fvec_L2sqr x) y) (map int [0..<length y])))"
    by (simp add: distinct_map inj_on_def)
  then have "distinct (zip (map (fvec_L2sqr x) y) (map int [0..<length y]))"
       and "inj_on snd (set (zip (map (fvec_L2sqr x) y) (map int [0..<length y])))"
    by (simp_all only: distinct_map)
  then show ?thesis
    by (simp add: ranked_def distinct_map)
qed

lemma ranked_label_range:
  "(dis, l) \<in> set (ranked y x) \<Longrightarrow> 0 \<le> l \<and> l < int (length y) \<and> dis = fvec_L2sqr x (y ! nat l)"
  by (auto simp: set_ranked)

lemma sorted_ranked: "sorted (map fst (ranked y x))"
  by (simp add: ranked_def)

lemma length_knn: "length (knn_L2sqr y x k) = k"
  by (simp add: knn_L2sqr_def length_ranked)

lemma knn_enough: "k \<le> length y \<Longrightarrow> knn_L2sqr y x k = take k (ranked y x)"
  by (simp add: knn_L2sqr_def length_ranked)

lemma knn_short:
  "length y \<le> k \<Longrightarrow> knn_L2sqr y x k = ranked y x @ replicate (k - length y) no_result"
  by (simp add: knn_L2sqr_def length_ranked)

lemma fvec_L2sqr_nonneg: "0 \<le> fvec_L2sqr x y"
  unfolding fvec_L2sqr_def by (rule sum_list_nonneg) auto

lemma fvec_L2sqr_self: "fvec_L2sqr x x = 0"
  by (induction x) (simp_all add: fvec_L2sqr_def)

lemma fvec_L2sqr_Cons: "fvec_L2sqr (a # x) (b # y) = (a - b)\<^sup>2 + fvec_L2sqr x y"
  by (simp add: fvec_L2sqr_def)

lemma fvec_L2sqr_zero_eq:
  "length x = length y \<Longrightarrow> fvec_L2sqr x y = 0 \<Longrightarrow> x = y"
proof (induction x y rule: list_induct2)
  case Nil
  show ?case by simp
next
  case (Cons a x b y)
  have "0 \<le> (a - b)\<^sup>2" by simp
  moreover have "0 \<le> fvec_L2sqr x y" by (rule fvec_L2sqr_nonneg)
  moreover from Cons.prems have "(a - b)\<^sup>2 + fvec_L2sqr x y = 0"
    by (simp add: fvec_L2sqr_Cons)
  ultimately have "(a - b)\<^sup>2 = 0" and "fvec_L2sqr x y = 0"
    by linarith+
  with Cons.IH show ?case by simp
qed

lemma ranked_Cons_min:
  assumes "\<forall>p\<in>set ps. fst p0 \<le> fst p"
  shows "sort_key fst (p0 # ps) = p0 # sort_key fst ps"
  using assms by (simp add: insort_is_Cons)

lemma hd_ranked_min:
  assumes "y \<noteq> []"
  shows "\<forall>p\<in>set (ranked y x). fst (hd (ranked y x)) \<le> fst p"
proof -
  from assms have ne: "ranked y x \<noteq> []"
    using length_ranked [of y x] by auto
  then obtain p ps where eq: "ranked y x = p # ps" by (cases "ranked y x") auto
  with sorted_ranked [of y x] show ?thesis by auto
qed

subsection \<open>Searching one query\<close>

lemma index_search_single:
  "index_search index [q] k =
     (if length q = d index
      then Inr ([map fst (knn_L2sqr (xb index) q k)], [map snd (knn_L2sqr (xb index) q k)])
      else Inl DimensionMismatchError)"
  by (simp add: index_search_def Let_def)

lemma getitem_single: "getitem [row] 0 = Inr row"
  by (simp add: getitem_def Let_def)

lemma search_query_unfold:
  "search_query emb query index chunks =
     (if length (emb query) = d index
      then gather chunks (map snd (knn_L2sqr (xb index) (emb query) 5))
      else Inl DimensionMismatchError)"
  by (simp add: search_query_def encode_def index_search_single getitem_single Let_def)

lemma set_labels_ranked: "set (map snd (ranked y x)) = int ` {..<length y}"
  by (auto simp: set_ranked image_iff)

lemma labels_knn_short:
  "length y \<le> k \<Longrightarrow>
     map snd (knn_L2sqr y x k) = map snd (ranked y x) @ replicate (k - length y) (- 1)"
  by (simp add: knn_short no_result_def)

lemma labels_knn_range:
  "l \<in> set (map snd (knn_L2sqr y x k)) \<Longrightarrow> l = - 1 \<or> (0 \<le> l \<and> l < int (length y))"
proof -
  assume "l \<in> set (map snd (knn_L2sqr y x k))"
  then have "l \<in> set (map snd (ranked y x @ replicate (k - length y) no_result))"
    unfolding knn_L2sqr_def using set_take_subset by fastforce
  then show ?thesis
    using set_labels_ranked [of y x] by (auto simp: no_result_def)
qed

lemma gather_labels_ok:
  assumes "chunks \<noteq> []" and "length y \<le> length chunks"
  shows "\<exists>r. gather chunks (map snd (knn_L2sqr y x k)) = Inr r"
proof (rule ccontr)
  assume "\<not> ?thesis"
  then have "\<exists>e. gather chunks (map snd (knn_L2sqr y x k)) = Inl e"
    by (cases "gather chunks (map snd (knn_L2sqr y x k))") auto
  then obtain l where l: "l \<in> set (map snd (knn_L2sqr y x k))"
    and bad: "l < - int (length chunks) \<or> int (length chunks) \<le> l"
    unfolding gather_Inl_iff by blast
  from labels_knn_range [OF l] assms bad show False
    by (cases chunks) auto
qed

lemma ranked_labels_take:
  "\<forall>l\<in>set (map snd (ranked y x)). 0 \<le> l \<and> l < int (length y)"
  using set_labels_ranked [of y x] by auto

subsection \<open>Result slots, index construction and the nearest vector\<close>

lemma gather_nth:
  "gather chunks row = Inr r \<Longrightarrow> j < length row \<Longrightarrow> getitem chunks (row ! j) = Inr (r ! j)"
proof (induction row arbitrary: r j)
  case Nil
  then show ?case by simp
next
  case (Cons i row)
  from Cons.prems(1) obtain c cs where c: "getitem chunks i = Inr c"
    and cs: "gather chunks row = Inr cs" and r: "r = c # cs"
    by (auto split: sum.splits)
  show ?case
  proof (cases j)
    case 0
    with c r show ?thesis by simp
  next
    case (Suc j')
    with Cons.prems(2) have "j' < length row" by simp
    from Cons.IH [OF cs this] Suc r show ?thesis by simp
  qed
qed

lemma knn_member:
  "p \<in> set (knn_L2sqr y x k) \<Longrightarrow> p \<in> set (ranked y x) \<or> p = no_result"
proof -
  assume "p \<in> set (knn_L2sqr y x k)"
  then have "p \<in> set (ranked y x @ replicate (k - length y) no_result)"
    unfolding knn_L2sqr_def by (rule in_set_takeD)
  then show ?thesis by auto
qed

lemma knn_slot:
  assumes "j < k" and "snd (knn_L2sqr y x k ! j) \<noteq> - 1"
  shows "0 \<le> snd (knn_L2sqr y x k ! j) \<and> snd (knn_L2sqr y x k ! j) < int (length y) \<and>
         fst (knn_L2sqr y x k ! j) = fvec_L2sqr x (y ! nat (snd (knn_L2sqr y x k ! j)))"
proof -
  let ?p = "knn_L2sqr y x k ! j"
  from assms(1) have "?p \<in> set (knn_L2sqr y x k)"
    by (simp add: length_knn)
  then have "?p \<in> set (ranked y x) \<or> ?p = no_result"
    by (rule knn_member)
  with assms(2) have "(fst ?p, snd ?p) \<in> set (ranked y x)"
    by (auto simp: no_result_def)
  then show ?thesis
    by (rule ranked_label_range)
qed

lemma create_faiss_index_encode:
  assumes "fixed_dim emb n" and "cs \<noteq> []"
  shows "create_faiss_index (encode emb cs) = Inr \<lparr>d = n, xb = encode emb cs\<rparr>"
proof -
  from assms(2) obtain c cs' where cs: "cs = c # cs'" by (cases cs) auto
  from assms(1) have "list_all (\<lambda>v. length v = n) (map emb cs)"
    by (simp add: fixed_dim_def list_all_iff)
  with assms(1) show ?thesis
    by (simp add: cs create_faiss_index_def shape1_def encode_def index_add_def
        IndexFlatL2_def fixed_dim_def)
qed

lemma knn_first:
  assumes "0 < k" and "y \<noteq> []"
  shows "knn_L2sqr y x k ! 0 = hd (ranked y x)"
proof -
  from assms(2) have "ranked y x \<noteq> []"
    using length_ranked [of y x] by auto
  then obtain p ps where "ranked y x = p # ps"
    by (cases "ranked y x") auto
  with assms(1) show ?thesis
    by (cases k) (simp_all add: knn_L2sqr_def)
qed

lemma hd_ranked_self:
  assumes "i < length y"
  shows "fst (hd (ranked y (y ! i))) = 0 \<and> 0 \<le> snd (hd (ranked y (y ! i))) \<and>
         snd (hd (ranked y (y ! i))) < int (length y) \<and>
         fvec_L2sqr (y ! i) (y ! nat (snd (hd (ranked y (y ! i))))) = 0"
proof -
  let ?x = "y ! i"
  let ?p = "hd (ranked y ?x)"
  from assms have ne: "y \<noteq> []" by auto
  then have "ranked y ?x \<noteq> []"
    using length_ranked [of y ?x] by auto
  then have mem: "(fst ?p, snd ?p) \<in> set (ranked y ?x)" by simp
  from ranked_label_range [OF mem]
  have range: "0 \<le> snd ?p" "snd ?p < int (length y)"
    and dis: "fst ?p = fvec_L2sqr ?x (y ! nat (snd ?p))"
    by simp_all
  have "(fvec_L2sqr ?x (y ! i), int i) \<in> set (ranked y ?x)"
    using assms by (simp add: set_ranked)
  with hd_ranked_min [OF ne, of ?x] have "fst ?p \<le> fvec_L2sqr ?x (y ! i)"
    by fastforce
  then have "fst ?p \<le> 0"
    by (simp add: fvec_L2sqr_self)
  moreover have "0 \<le> fst ?p"
    unfolding dis by (rule fvec_L2sqr_nonneg)
  ultimately have "fst ?p = 0" by simp
  with range dis show ?thesis by simp
qed

lemma create_faiss_index_Cons:
  "create_faiss_index (v # vs) =
     (if list_all (\<lambda>u. length u = length v) vs
      then Inr \<lparr>d = length v, xb = v # vs\<rparr> else Inl DimensionMismatchError)"
  by (simp add: create_faiss_index_def shape1_def index_add_def IndexFlatL2_def)

lemma create_faiss_index_Inr:
  assumes "create_faiss_index vectors = Inr index"
  shows "vectors \<noteq> [] \<and> xb index = vectors \<and> list_all (\<lambda>u. length u = d index) vectors"
proof (cases vectors)
  case Nil
  with assms show ?thesis
    by (simp add: create_faiss_index_def shape1_def)
next
  case (Cons v vs)
  with assms show ?thesis
    by (auto simp: create_faiss_index_Cons split: if_splits)
qed

lemma hd_ranked_first: "hd (ranked (x # ys) x) = (0, 0)"
proof -
  have upt: "[0..<Suc (length ys)] = 0 # [Suc 0..<Suc (length ys)]"
    by (rule upt_conv_Cons) simp
  let ?rest = "zip (map (fvec_L2sqr x) ys) (map int [Suc 0..<Suc (length ys)])"
  have "\<forall>p\<in>set ?rest. 0 \<le> fst p"
    by (auto dest!: set_zip_leftD simp: fvec_L2sqr_nonneg)
  then have "sort_key fst ((0, 0) # ?rest) = (0, 0) # sort_key fst ?rest"
    by (intro ranked_Cons_min) simp
  then show ?thesis
    by (simp add: ranked_def upt fvec_L2sqr_self del: upt_Suc)
qed

lemma knn_beyond:
  assumes p: "p < length y" and out: "int p \<notin> set (map snd (knn_L2sqr y x k))"
    and e: "e \<in> set (knn_L2sqr y x k)" and real: "snd e \<noteq> - 1"
  shows "fst e \<le> fvec_L2sqr x (y ! p)"
proof -
  let ?q = "(fvec_L2sqr x (y ! p), int p)"
  have q: "?q \<in> set (ranked y x)"
    using p by (simp add: set_ranked)
  have long: "k < length y"
  proof (rule ccontr)
    assume "\<not> k < length y"
    then have "knn_L2sqr y x k = ranked y x @ replicate (k - length y) no_result"
      by (simp add: knn_short)
    with q have "?q \<in> set (knn_L2sqr y x k)" by simp
    then have "int p \<in> set (map snd (knn_L2sqr y x k))" by force
    with out show False by blast
  qed
  then have knn: "knn_L2sqr y x k = take k (ranked y x)"
    by (simp add: knn_enough)
  have "ranked y x = take k (ranked y x) @ drop k (ranked y x)" by simp
  then have "sorted (map fst (take k (ranked y x)) @ map fst (drop k (ranked y x)))"
    using sorted_ranked [of y x] by (metis map_append)
  then have le: "\<forall>a\<in>set (take k (ranked y x)). \<forall>b\<in>set (drop k (ranked y x)). fst a \<le> fst b"
    by (auto simp: sorted_append)
  have "?q \<notin> set (take k (ranked y x))"
    using out knn by force
  moreover have "set (ranked y x) = set (take k (ranked y x)) \<union> set (drop k (ranked y x))"
    by (metis append_take_drop_id set_append)
  ultimately have "?q \<in> set (drop k (ranked y x))"
    using q by blast
  with le e knn show ?thesis by fastforce
qed

section \<open>The claims\<close>

text \<open>
  C5.  The query resolver performs one nearest-neighbour search with the fixed
  result count five and maps its positions back.  Whenever \<open>search_query\<close>
  returns a list \<open>r\<close>, the search of the index for the embedded query with
  \<open>k = 5\<close> has returned one row \<open>D\<close> of five distances and one row \<open>I\<close> of five
  positions, \<open>r\<close> has exactly five entries whatever the number of indexed
  vectors, and the entry in slot \<open>j\<close> is the lookup of position \<open>I ! j\<close> in the
  chunk list.  Every slot that holds the position of a stored vector carries
  the squared distance between the query and that vector, and no stored
  vector that is left out of the row is nearer than it.  A query of another
  dimensionality than the index is refused, and the call does return when the
  query has the index's dimensionality, the chunk list is not empty and the
  index holds no more vectors than there are chunks.
\<close>

theorem search_query_fixed_five:
  "(length (emb query) \<noteq> d index \<longrightarrow>
       search_query emb query index chunks = Inl DimensionMismatchError) \<and>
   (\<forall>r. search_query emb query index chunks = Inr r \<longrightarrow>
       (\<exists>D I. index_search index (encode emb [query]) 5 = Inr ([D], [I]) \<and>
          length D = 5 \<and> length I = 5 \<and> length r = 5 \<and>
          (\<forall>j<5. getitem chunks (I ! j) = Inr (r ! j)) \<and>
          (\<forall>j<5. I ! j \<noteq> - 1 \<longrightarrow>
             0 \<le> I ! j \<and> I ! j < int (ntotal index) \<and>
             D ! j = fvec_L2sqr (emb query) (xb index ! nat (I ! j)) \<and>
             (\<forall>p<ntotal index. int p \<notin> set I \<longrightarrow>
                D ! j \<le> fvec_L2sqr (emb query) (xb index ! p))))) \<and>
   (length (emb query) = d index \<and> chunks \<noteq> [] \<and> ntotal index \<le> length chunks \<longrightarrow>
       (\<exists>r. search_query emb query index chunks = Inr r))"
proof (intro conjI allI impI)
  assume "length (emb query) \<noteq> d index"
  then show "search_query emb query index chunks = Inl DimensionMismatchError"
    by (simp add: search_query_unfold)
next
  fix r
  assume ret: "search_query emb query index chunks = Inr r"
  let ?x = "emb query" and ?y = "xb index"
  let ?knn = "knn_L2sqr ?y ?x 5"
  let ?D = "map fst ?knn" and ?I = "map snd ?knn"
  from ret have dim: "length ?x = d index" and g: "gather chunks ?I = Inr r"
    by (simp_all add: search_query_unfold split: if_splits)
  have search: "index_search index (encode emb [query]) 5 = Inr ([?D], [?I])"
    using dim by (simp add: encode_def index_search_single)
  from gather_length [OF g] have lenr: "length r = 5"
    by (simp add: length_knn)
  have lenD: "length ?D = 5" and lenI: "length ?I = 5"
    by (simp_all add: length_knn)
  have mapped: "\<forall>j<5. getitem chunks (?I ! j) = Inr (r ! j)"
    using gather_nth [OF g] by (simp add: length_knn)
  have nearest: "\<forall>j<5. ?I ! j \<noteq> - 1 \<longrightarrow>
             0 \<le> ?I ! j \<and> ?I ! j < int (ntotal index) \<and>
             ?D ! j = fvec_L2sqr ?x (?y ! nat (?I ! j)) \<and>
             (\<forall>p<ntotal index. int p \<notin> set ?I \<longrightarrow> ?D ! j \<le> fvec_L2sqr ?x (?y ! p))"
  proof (intro allI impI)
    fix j :: nat
    assume j: "j < 5" and real: "?I ! j \<noteq> - 1"
    then have nth: "?I ! j = snd (?knn ! j)" "?D ! j = fst (?knn ! j)"
      by (simp_all add: length_knn)
    from j have mem: "?knn ! j \<in> set ?knn"
      by (simp add: length_knn)
    from knn_slot [of j 5 ?y ?x] j real
    have slot: "0 \<le> ?I ! j \<and> ?I ! j < int (ntotal index) \<and>
        ?D ! j = fvec_L2sqr ?x (?y ! nat (?I ! j))"
      by (simp add: nth ntotal_def)
    have "\<forall>p<ntotal index. int p \<notin> set ?I \<longrightarrow> ?D ! j \<le> fvec_L2sqr ?x (?y ! p)"
    proof (intro allI impI)
      fix p
      assume "p < ntotal index" and "int p \<notin> set ?I"
      then show "?D ! j \<le> fvec_L2sqr ?x (?y ! p)"
        using knn_beyond [of p ?y ?x 5 "?knn ! j"] mem real
        by (simp add: nth ntotal_def)
    qed
    with slot show "0 \<le> ?I ! j \<and> ?I ! j < int (ntotal index) \<and>
             ?D ! j = fvec_L2sqr ?x (?y ! nat (?I ! j)) \<and>
             (\<forall>p<ntotal index. int p \<notin> set ?I \<longrightarrow> ?D ! j \<le> fvec_L2sqr ?x (?y ! p))"
      by blast
  qed
  show "\<exists>D I. index_search index (encode emb [query]) 5 = Inr ([D], [I]) \<and>
          length D = 5 \<and> length I = 5 \<and> length r = 5 \<and>
          (\<forall>j<5. getitem chunks (I ! j) = Inr (r ! j)) \<and>
          (\<forall>j<5. I ! j \<noteq> - 1 \<longrightarrow>
             0 \<le> I ! j \<and> I ! j < int (ntotal index) \<and>
             D ! j = fvec_L2sqr (emb query) (xb index ! nat (I ! j)) \<and>
             (\<forall>p<ntotal index. int p \<notin> set I \<longrightarrow>
                D ! j \<le> fvec_L2sqr (emb query) (xb index ! p)))"
    using search lenD lenI lenr mapped nearest by blast
next
  assume "length (emb query) = d index \<and> chunks \<noteq> [] \<and> ntotal index \<le> length chunks"
  then show "\<exists>r. search_query emb query index chunks = Inr r"
    using gather_labels_ok [of chunks "xb index" "emb query" 5]
    by (simp add: search_query_unfold ntotal_def)
qed

theorem search_query_fixed_five_witness:
  "length (toy_emb ''abc'') = d \<lparr>d = 1, xb = [[9], [1], [5], [2], [8], [3], [4]]\<rparr> \<and>
   [''i'', ''a'', ''e'', ''b'', ''h'', ''c'', ''d''] \<noteq> [] \<and>
   ntotal \<lparr>d = 1, xb = [[9], [1], [5], [2], [8], [3], [4]]\<rparr>
     \<le> length [''i'', ''a'', ''e'', ''b'', ''h'', ''c'', ''d''] \<and>
   index_search \<lparr>d = 1, xb = [[9], [1], [5], [2], [8], [3], [4]]\<rparr>
       (encode toy_emb [''abc'']) 5 =
     Inr ([[0, 1, 1, 4, 4]], [[5, 3, 6, 1, 2]]) \<and>
   search_query toy_emb ''abc'' \<lparr>d = 1, xb = [[9], [1], [5], [2], [8], [3], [4]]\<rparr>
       [''i'', ''a'', ''e'', ''b'', ''h'', ''c'', ''d''] =
     Inr [''c'', ''b'', ''d'', ''a'', ''e''] \<and>
   length [''c'', ''b'', ''d'', ''a'', ''e''] = 5"
proof -
  have hyp: "length (toy_emb ''abc'') = d \<lparr>d = 1, xb = [[9], [1], [5], [2], [8], [3], [4]]\<rparr> \<and>
      [''i'', ''a'', ''e'', ''b'', ''h'', ''c'', ''d''] \<noteq> [] \<and>
      ntotal \<lparr>d = 1, xb = [[9], [1], [5], [2], [8], [3], [4]]\<rparr>
        \<le> length [''i'', ''a'', ''e'', ''b'', ''h'', ''c'', ''d'']"
    by (simp add: toy_emb_def ntotal_def)
  have search: "index_search \<lparr>d = 1, xb = [[9], [1], [5], [2], [8], [3], [4]]\<rparr>
      (encode toy_emb [''abc'']) 5 = Inr ([[0, 1, 1, 4, 4]], [[5, 3, 6, 1, 2]])"
    by code_simp
  have run: "search_query toy_emb ''abc'' \<lparr>d = 1, xb = [[9], [1], [5], [2], [8], [3], [4]]\<rparr>
      [''i'', ''a'', ''e'', ''b'', ''h'', ''c'', ''d''] = Inr [''c'', ''b'', ''d'', ''a'', ''e'']"
    by code_simp
  from search_query_fixed_five
    [of toy_emb "''abc''" "\<lparr>d = 1, xb = [[9], [1], [5], [2], [8], [3], [4]]\<rparr>"
       "[''i'', ''a'', ''e'', ''b'', ''h'', ''c'', ''d'']"]
  have "length [''c'', ''b'', ''d'', ''a'', ''e''] = 5"
    using run by blast
  with hyp search run show ?thesis by blast
qed

text \<open>
  C10.  When the index holds fewer than five vectors (and the query has the
  index's dimensionality, the chunk list is not empty and has an entry for
  every indexed vector), \<open>search_query\<close> raises nothing: the search fills the
  slots after the \<open>ntotal\<close> real neighbours with the position \<open>-1\<close>, the lookup
  \<^verbatim>\<open>chunks[-1]\<close> reads the last chunk, and the call returns exactly five chunk
  strings, the last chunk repeated in the padded slots.
\<close>

theorem search_query_pads_last_chunk:
  assumes "ntotal index < 5"
    and "length (emb query) = d index"
    and "chunks \<noteq> []"
    and "ntotal index \<le> length chunks"
  shows "\<exists>D I r. index_search index (encode emb [query]) 5 = Inr ([D], [I]) \<and>
           drop (ntotal index) I = replicate (5 - ntotal index) (- 1) \<and>
           (\<forall>l\<in>set (take (ntotal index) I). 0 \<le> l \<and> l < int (ntotal index)) \<and>
           search_query emb query index chunks = Inr r \<and>
           length r = 5 \<and>
           take (ntotal index) r = map (\<lambda>l. chunks ! nat l) (take (ntotal index) I) \<and>
           drop (ntotal index) r = replicate (5 - ntotal index) (last chunks)"
proof -
  let ?y = "xb index" and ?x = "emb query"
  let ?m = "length ?y"
  let ?near = "map snd (ranked ?y ?x)"
  let ?I = "map snd (knn_L2sqr ?y ?x 5)"
  let ?r = "map (\<lambda>l. chunks ! nat l) ?near @ replicate (5 - ?m) (last chunks)"
  from assms have m: "?m < 5" "?m \<le> length chunks"
    by (simp_all add: ntotal_def)
  have I: "?I = ?near @ replicate (5 - ?m) (- 1)"
    using m by (simp add: labels_knn_short)
  have len: "length ?near = ?m"
    by (simp add: length_ranked)
  have range: "\<forall>l\<in>set ?near. 0 \<le> l \<and> l < int ?m"
    by (rule ranked_labels_take)
  then have "\<forall>l\<in>set ?near. 0 \<le> l \<and> l < int (length chunks)"
    using m by auto
  then have "gather chunks ?near = Inr (map (\<lambda>l. chunks ! nat l) ?near)"
    by (rule gather_nonneg)
  then have g: "gather chunks ?I = Inr ?r"
    using assms(3) by (simp add: I gather_append gather_replicate_minus1)
  have "index_search index (encode emb [query]) 5 =
          Inr ([map fst (knn_L2sqr ?y ?x 5)], [?I])"
    using assms(2) by (simp add: encode_def index_search_single)
  moreover have "drop (ntotal index) ?I = replicate (5 - ntotal index) (- 1)"
    by (simp add: I length_ranked ntotal_def)
  moreover have "\<forall>l\<in>set (take (ntotal index) ?I). 0 \<le> l \<and> l < int (ntotal index)"
    using range by (simp add: I length_ranked ntotal_def)
  moreover have "search_query emb query index chunks = Inr ?r"
    using assms(2) g by (simp add: search_query_unfold)
  moreover have "length ?r = 5"
    using m by (simp add: length_ranked)
  moreover have "take (ntotal index) ?r = map (\<lambda>l. chunks ! nat l) (take (ntotal index) ?I)"
    by (simp add: I length_ranked ntotal_def)
  moreover have "drop (ntotal index) ?r = replicate (5 - ntotal index) (last chunks)"
    by (simp add: length_ranked ntotal_def)
  ultimately show ?thesis by blast
qed

theorem search_query_pads_last_chunk_witness:
  "ntotal \<lparr>d = 1, xb = [[3], [1]]\<rparr> < 5 \<and>
   length (toy_emb ''a'') = d \<lparr>d = 1, xb = [[3], [1]]\<rparr> \<and>
   [''ccc'', ''a''] \<noteq> [] \<and>
   ntotal \<lparr>d = 1, xb = [[3], [1]]\<rparr> \<le> length [''ccc'', ''a''] \<and>
   index_search \<lparr>d = 1, xb = [[3], [1]]\<rparr> (encode toy_emb [''a'']) 5 =
     Inr ([[0, 4, FLT_MAX, FLT_MAX, FLT_MAX]], [[1, 0, - 1, - 1, - 1]]) \<and>
   search_query toy_emb ''a'' \<lparr>d = 1, xb = [[3], [1]]\<rparr> [''ccc'', ''a''] =
     Inr [''a'', ''ccc'', ''a'', ''a'', ''a''] \<and>
   drop (ntotal \<lparr>d = 1, xb = [[3], [1]]\<rparr>) [''a'', ''ccc'', ''a'', ''a'', ''a''] =
     replicate (5 - ntotal \<lparr>d = 1, xb = [[3], [1]]\<rparr>) (last [''ccc'', ''a''])"
proof -
  have h1: "ntotal \<lparr>d = 1, xb = [[3], [1]]\<rparr> < 5"
    by (simp add: ntotal_def)
  have h2: "length (toy_emb ''a'') = d \<lparr>d = 1, xb = [[3], [1]]\<rparr>"
    by (simp add: toy_emb_def)
  have h3: "[''ccc'', ''a''] \<noteq> []"
    by simp
  have h4: "ntotal \<lparr>d = 1, xb = [[3], [1]]\<rparr> \<le> length [''ccc'', ''a'']"
    by (simp add: ntotal_def)
  have search: "index_search \<lparr>d = 1, xb = [[3], [1]]\<rparr> (encode toy_emb [''a'']) 5 =
      Inr ([[0, 4, FLT_MAX, FLT_MAX, FLT_MAX]], [[1, 0, - 1, - 1, - 1]])"
    by code_simp
  have run: "search_query toy_emb ''a'' \<lparr>d = 1, xb = [[3], [1]]\<rparr> [''ccc'', ''a''] =
      Inr [''a'', ''ccc'', ''a'', ''a'', ''a'']"
    by code_simp
  from search_query_pads_last_chunk
    [where index = "\<lparr>d = 1, xb = [[3], [1]]\<rparr>" and emb = toy_emb and query = "''a''"
       and chunks = "[''ccc'', ''a'']", OF h1 h2 h3 h4] run
  have "drop (ntotal \<lparr>d = 1, xb = [[3], [1]]\<rparr>) [''a'', ''ccc'', ''a'', ''a'', ''a''] =
      replicate (5 - ntotal \<lparr>d = 1, xb = [[3], [1]]\<rparr>) (last [''ccc'', ''a''])"
    by auto
  with h1 h2 h3 h4 search run show ?thesis by blast
qed

text \<open>
  C9.  The list returned by \<open>search_query\<close> is the comprehension over the first
  row of the positions and the chunk list, and nothing else: two searches
  (any models, queries and indexes) that return the same first row of
  positions give the same result on the same chunks, whatever their
  distances.  The result is a list of chunk strings; no distance is part
  of it.
\<close>

theorem search_query_ignores_distances:
  assumes "index_search index1 (encode emb1 [query1]) 5 = Inr (D1, I1)"
    and "index_search index2 (encode emb2 [query2]) 5 = Inr (D2, I2)"
    and "I1 ! 0 = I2 ! 0"
  shows "search_query emb1 query1 index1 chunks = gather chunks (I1 ! 0) \<and>
         search_query emb1 query1 index1 chunks = search_query emb2 query2 index2 chunks"
proof -
  from assms(1) have 1: "length (emb1 query1) = d index1"
      "I1 = [map snd (knn_L2sqr (xb index1) (emb1 query1) 5)]"
    by (auto simp: encode_def index_search_single split: if_splits)
  from assms(2) have 2: "length (emb2 query2) = d index2"
      "I2 = [map snd (knn_L2sqr (xb index2) (emb2 query2) 5)]"
    by (auto simp: encode_def index_search_single split: if_splits)
  from 1 have a: "search_query emb1 query1 index1 chunks = gather chunks (I1 ! 0)"
    by (simp add: search_query_unfold)
  from 2 have b: "search_query emb2 query2 index2 chunks = gather chunks (I2 ! 0)"
    by (simp add: search_query_unfold)
  from a b assms(3) show ?thesis by simp
qed

theorem search_query_ignores_distances_witness:
  "index_search \<lparr>d = 1, xb = [[0], [10]]\<rparr> (encode toy_emb [''a'']) 5 =
     Inr ([[1, 81, FLT_MAX, FLT_MAX, FLT_MAX]], [[0, 1, - 1, - 1, - 1]]) \<and>
   index_search \<lparr>d = 1, xb = [[0], [20]]\<rparr> (encode toy_emb [''a'']) 5 =
     Inr ([[1, 361, FLT_MAX, FLT_MAX, FLT_MAX]], [[0, 1, - 1, - 1, - 1]]) \<and>
   [[0, 1, - 1, - 1, - 1]] ! 0 = [[0, 1, - 1, - 1, - 1 :: int]] ! 0 \<and>
   search_query toy_emb ''a'' \<lparr>d = 1, xb = [[0], [10]]\<rparr> [''x'', ''y''] =
     search_query toy_emb ''a'' \<lparr>d = 1, xb = [[0], [20]]\<rparr> [''x'', ''y''] \<and>
   search_query toy_emb ''a'' \<lparr>d = 1, xb = [[0], [10]]\<rparr> [''x'', ''y''] =
     Inr [''x'', ''y'', ''y'', ''y'', ''y'']"
proof -
  have h1: "index_search \<lparr>d = 1, xb = [[0], [10]]\<rparr> (encode toy_emb [''a'']) 5 =
      Inr ([[1, 81, FLT_MAX, FLT_MAX, FLT_MAX]], [[0, 1, - 1, - 1, - 1]])"
    by code_simp
  have h2: "index_search \<lparr>d = 1, xb = [[0], [20]]\<rparr> (encode toy_emb [''a'']) 5 =
      Inr ([[1, 361, FLT_MAX, FLT_MAX, FLT_MAX]], [[0, 1, - 1, - 1, - 1]])"
    by code_simp
  have h3: "[[0, 1, - 1, - 1, - 1]] ! 0 = [[0, 1, - 1, - 1, - 1 :: int]] ! 0"
    by simp
  have run: "search_query toy_emb ''a'' \<lparr>d = 1, xb = [[0], [10]]\<rparr> [''x'', ''y''] =
      Inr [''x'', ''y'', ''y'', ''y'', ''y'']"
    by code_simp
  from search_query_ignores_distances [OF h1 h2 h3, where chunks = "[''x'', ''y'']"]
  have "search_query toy_emb ''a'' \<lparr>d = 1, xb = [[0], [10]]\<rparr> [''x'', ''y''] =
      search_query toy_emb ''a'' \<lparr>d = 1, xb = [[0], [20]]\<rparr> [''x'', ''y'']"
    by (rule conjunct2)
  with h1 h2 h3 run show ?thesis by blast
qed

text \<open>
  C1, as the code has it.  \<open>search_query\<close> has no parameter \<open>k\<close>: it asks for five
  neighbours.  When the index holds at least five vectors, the chunk list has
  an entry for every indexed vector and the query has the index's
  dimensionality, the call returns exactly five chunk strings, the five
  positions are pairwise different, each lies in \<open>[0, len(chunks))\<close>, and each
  result is the chunk at its position.
\<close>

theorem search_query_positions_in_range:
  assumes "5 \<le> ntotal index"
    and "ntotal index \<le> length chunks"
    and "length (emb query) = d index"
  shows "\<exists>D I. index_search index (encode emb [query]) 5 = Inr ([D], [I]) \<and>
           length I = 5 \<and> distinct I \<and>
           (\<forall>l\<in>set I. 0 \<le> l \<and> l < int (length chunks)) \<and>
           search_query emb query index chunks = Inr (map (\<lambda>l. chunks ! nat l) I)"
proof -
  let ?y = "xb index" and ?x = "emb query"
  let ?I = "map snd (knn_L2sqr ?y ?x 5)"
  from assms have m: "5 \<le> length ?y" "length ?y \<le> length chunks"
    by (simp_all add: ntotal_def)
  have I: "?I = take 5 (map snd (ranked ?y ?x))"
    using m by (simp add: knn_enough take_map)
  have "distinct (map snd (ranked ?y ?x))"
    by (rule distinct_labels_ranked)
  then have dist: "distinct ?I"
    unfolding I by (rule distinct_take)
  have range: "\<forall>l\<in>set ?I. 0 \<le> l \<and> l < int (length chunks)"
  proof
    fix l assume "l \<in> set ?I"
    then have "l \<in> set (map snd (ranked ?y ?x))"
      unfolding I by (rule in_set_takeD)
    with ranked_labels_take [of ?y ?x] m show "0 \<le> l \<and> l < int (length chunks)"
      by auto
  qed
  then have "gather chunks ?I = Inr (map (\<lambda>l. chunks ! nat l) ?I)"
    by (rule gather_nonneg)
  then have "search_query emb query index chunks = Inr (map (\<lambda>l. chunks ! nat l) ?I)"
    using assms(3) by (simp add: search_query_unfold)
  moreover have "index_search index (encode emb [query]) 5 =
          Inr ([map fst (knn_L2sqr ?y ?x 5)], [?I])"
    using assms(3) by (simp add: encode_def index_search_single)
  moreover have "length ?I = 5"
    by (simp add: length_knn)
  ultimately show ?thesis
    using dist range by blast
qed

theorem search_query_positions_in_range_witness:
  "5 \<le> ntotal \<lparr>d = 1, xb = [[1], [2], [3], [4], [5], [6]]\<rparr> \<and>
   ntotal \<lparr>d = 1, xb = [[1], [2], [3], [4], [5], [6]]\<rparr>
     \<le> length [''a'', ''bb'', ''ccc'', ''dddd'', ''eeeee'', ''ffffff''] \<and>
   length (toy_emb ''ccc'') = d \<lparr>d = 1, xb = [[1], [2], [3], [4], [5], [6]]\<rparr> \<and>
   index_search \<lparr>d = 1, xb = [[1], [2], [3], [4], [5], [6]]\<rparr> (encode toy_emb [''ccc'']) 5 =
     Inr ([[0, 1, 1, 4, 4]], [[2, 1, 3, 0, 4]]) \<and>
   search_query toy_emb ''ccc'' \<lparr>d = 1, xb = [[1], [2], [3], [4], [5], [6]]\<rparr>
       [''a'', ''bb'', ''ccc'', ''dddd'', ''eeeee'', ''ffffff''] =
     Inr [''ccc'', ''bb'', ''dddd'', ''a'', ''eeeee''] \<and>
   length [''ccc'', ''bb'', ''dddd'', ''a'', ''eeeee''] = 5"
proof -
  have h1: "5 \<le> ntotal \<lparr>d = 1, xb = [[1], [2], [3], [4], [5], [6]]\<rparr>"
    by (simp add: ntotal_def)
  have h2: "ntotal \<lparr>d = 1, xb = [[1], [2], [3], [4], [5], [6]]\<rparr>
      \<le> length [''a'', ''bb'', ''ccc'', ''dddd'', ''eeeee'', ''ffffff'']"
    by (simp add: ntotal_def)
  have h3: "length (toy_emb ''ccc'') = d \<lparr>d = 1, xb = [[1], [2], [3], [4], [5], [6]]\<rparr>"
    by (simp add: toy_emb_def)
  have search: "index_search \<lparr>d = 1, xb = [[1], [2], [3], [4], [5], [6]]\<rparr>
      (encode toy_emb [''ccc'']) 5 = Inr ([[0, 1, 1, 4, 4]], [[2, 1, 3, 0, 4]])"
    by code_simp
  have run: "search_query toy_emb ''ccc'' \<lparr>d = 1, xb = [[1], [2], [3], [4], [5], [6]]\<rparr>
       [''a'', ''bb'', ''ccc'', ''dddd'', ''eeeee'', ''ffffff''] =
     Inr [''ccc'', ''bb'', ''dddd'', ''a'', ''eeeee'']"
    by code_simp
  from search_query_positions_in_range
    [where index = "\<lparr>d = 1, xb = [[1], [2], [3], [4], [5], [6]]\<rparr>" and emb = toy_emb
       and query = "''ccc''"
       and chunks = "[''a'', ''bb'', ''ccc'', ''dddd'', ''eeeee'', ''ffffff'']",
     OF h1 h2 h3] run
  have "length [''ccc'', ''bb'', ''dddd'', ''a'', ''eeeee''] = 5"
    by auto
  with h1 h2 h3 search run show ?thesis by blast
qed

text \<open>
  The claim C1 as stated fails on an index of three vectors: the call returns
  five chunk strings, not \<open>min 5 3\<close>, and the fourth position it maps back is
  \<open>-1\<close>, outside \<open>[0, 3)\<close>.
\<close>

theorem search_query_min_count_counterexample:
  "ntotal \<lparr>d = 1, xb = [[1], [2], [3]]\<rparr> = 3 \<and>
   index_search \<lparr>d = 1, xb = [[1], [2], [3]]\<rparr> (encode toy_emb [''bb'']) 5 =
     Inr ([[0, 1, 1, FLT_MAX, FLT_MAX]], [[1, 0, 2, - 1, - 1]]) \<and>
   search_query toy_emb ''bb'' \<lparr>d = 1, xb = [[1], [2], [3]]\<rparr> [''a'', ''bb'', ''ccc''] =
     Inr [''bb'', ''a'', ''ccc'', ''ccc'', ''ccc''] \<and>
   length [''bb'', ''a'', ''ccc'', ''ccc'', ''ccc''] \<noteq> min 5 (ntotal \<lparr>d = 1, xb = [[1], [2], [3]]\<rparr>) \<and>
   \<not> (0 \<le> [1, 0, 2, - 1, - 1 :: int] ! 3)"
proof -
  have "index_search \<lparr>d = 1, xb = [[1], [2], [3]]\<rparr> (encode toy_emb [''bb'']) 5 =
      Inr ([[0, 1, 1, FLT_MAX, FLT_MAX]], [[1, 0, 2, - 1, - 1]])"
    by code_simp
  moreover have "search_query toy_emb ''bb'' \<lparr>d = 1, xb = [[1], [2], [3]]\<rparr>
      [''a'', ''bb'', ''ccc''] = Inr [''bb'', ''a'', ''ccc'', ''ccc'', ''ccc'']"
    by code_simp
  ultimately show ?thesis
    by (simp add: ntotal_def)
qed

text \<open>
  C2, as the code has it.  Asking for five neighbours of an index that holds
  fewer is no error by itself.  With a query of the index's dimensionality,
  the call on such an index fails with IndexOutOfRangeError exactly when the
  chunk list is empty or shorter than the index, and returns a result list
  exactly when the chunk list is not empty and has an entry for every indexed
  vector.
\<close>

theorem search_query_failure:
  assumes "ntotal index < 5"
    and "length (emb query) = d index"
  shows "(search_query emb query index chunks = Inl IndexOutOfRangeError \<longleftrightarrow>
            chunks = [] \<or> length chunks < ntotal index) \<and>
         ((\<exists>r. search_query emb query index chunks = Inr r) \<longleftrightarrow>
            chunks \<noteq> [] \<and> ntotal index \<le> length chunks)"
proof -
  let ?y = "xb index" and ?x = "emb query"
  let ?m = "length ?y"
  let ?I = "map snd (knn_L2sqr ?y ?x 5)"
  from assms have m: "?m < 5" by (simp add: ntotal_def)
  have sq: "search_query emb query index chunks = gather chunks ?I"
    using assms(2) by (simp add: search_query_unfold)
  have "set ?I = set (map snd (ranked ?y ?x)) \<union> {- 1}"
    using m by (simp add: labels_knn_short)
  then have labels: "set ?I = int ` {..<?m} \<union> {- 1}"
    by (simp only: set_labels_ranked)
  have bad: "(\<exists>i\<in>set ?I. i < - int (length chunks) \<or> int (length chunks) \<le> i) \<longleftrightarrow>
      chunks = [] \<or> length chunks < ?m"
  proof
    assume "\<exists>i\<in>set ?I. i < - int (length chunks) \<or> int (length chunks) \<le> i"
    then obtain i where "i \<in> int ` {..<?m} \<union> {- 1}"
      and "i < - int (length chunks) \<or> int (length chunks) \<le> i"
      unfolding labels by blast
    then show "chunks = [] \<or> length chunks < ?m"
      by auto
  next
    assume "chunks = [] \<or> length chunks < ?m"
    then show "\<exists>i\<in>set ?I. i < - int (length chunks) \<or> int (length chunks) \<le> i"
    proof
      assume "chunks = []"
      then have "(- 1 :: int) < - int (length chunks)" by simp
      then show ?thesis unfolding labels by blast
    next
      assume "length chunks < ?m"
      then have "int (length chunks) \<in> int ` {..<?m}" by simp
      then show ?thesis unfolding labels by blast
    qed
  qed
  have fail: "(\<exists>e. gather chunks ?I = Inl e) \<longleftrightarrow> chunks = [] \<or> length chunks < ?m"
    using gather_Inl_iff [of chunks ?I] bad by simp
  have "gather chunks ?I = Inl IndexOutOfRangeError \<longleftrightarrow> (\<exists>e. gather chunks ?I = Inl e)"
    using gather_error [of chunks ?I] by auto
  with fail have 1: "search_query emb query index chunks = Inl IndexOutOfRangeError \<longleftrightarrow>
      chunks = [] \<or> length chunks < ntotal index"
    by (simp add: sq ntotal_def)
  have "(\<exists>r. gather chunks ?I = Inr r) \<longleftrightarrow> \<not> (\<exists>e. gather chunks ?I = Inl e)"
    by (cases "gather chunks ?I") auto
  with fail have 2: "(\<exists>r. search_query emb query index chunks = Inr r) \<longleftrightarrow>
      chunks \<noteq> [] \<and> ntotal index \<le> length chunks"
    by (auto simp: sq ntotal_def)
  from 1 2 show ?thesis by blast
qed

theorem search_query_failure_witness:
  "ntotal \<lparr>d = 1, xb = []\<rparr> < 5 \<and>
   length (toy_emb ''a'') = d \<lparr>d = 1, xb = []\<rparr> \<and>
   search_query toy_emb ''a'' \<lparr>d = 1, xb = []\<rparr> [] = Inl IndexOutOfRangeError"
proof -
  have h1: "ntotal \<lparr>d = 1, xb = []\<rparr> < 5"
    by (simp add: ntotal_def)
  have h2: "length (toy_emb ''a'') = d \<lparr>d = 1, xb = []\<rparr>"
    by (simp add: toy_emb_def)
  from search_query_failure
    [where index = "\<lparr>d = 1, xb = []\<rparr>" and emb = toy_emb and query = "''a''"
       and chunks = "[]", OF h1 h2]
  have "search_query toy_emb ''a'' \<lparr>d = 1, xb = []\<rparr> [] = Inl IndexOutOfRangeError"
    by simp
  with h1 h2 show ?thesis by blast
qed

text \<open>
  The claim C2 as stated fails on an index of two vectors: five exceeds two,
  and the call returns a result list.
\<close>

theorem search_query_no_error_counterexample:
  "ntotal \<lparr>d = 1, xb = [[2], [7]]\<rparr> < 5 \<and>
   search_query toy_emb ''abc'' \<lparr>d = 1, xb = [[2], [7]]\<rparr> [''ab'', ''abcdefg''] =
     Inr [''ab'', ''abcdefg'', ''abcdefg'', ''abcdefg'', ''abcdefg''] \<and>
   search_query toy_emb ''abc'' \<lparr>d = 1, xb = [[2], [7]]\<rparr> [''ab'', ''abcdefg''] \<noteq>
     Inl IndexOutOfRangeError"
proof -
  have "search_query toy_emb ''abc'' \<lparr>d = 1, xb = [[2], [7]]\<rparr> [''ab'', ''abcdefg''] =
      Inr [''ab'', ''abcdefg'', ''abcdefg'', ''abcdefg'', ''abcdefg'']"
    by code_simp
  then show ?thesis
    by (simp add: ntotal_def)
qed

text \<open>
  C4.  For every text, the chunks that \<open>chunk_and_embed_text\<close> returns are the
  pieces of \<^verbatim>\<open>text.split("\n\n")\<close>: their number is the number of occurrences of
  the double-newline separator (counted from the left without overlap, as
  \<^verbatim>\<open>str.count\<close> does) plus one, and joining them with the separator gives the
  text back, so no piece, empty or not, is dropped.
\<close>

theorem chunk_count:
  "fst (chunk_and_embed_text emb text) = split_paragraphs text \<and>
   length (split_paragraphs text) = count_sep text + 1 \<and>
   join_sep (split_paragraphs text) = text"
  by (simp add: chunk_and_embed_text_def split_paragraphs_def length_split_acc join_split_acc Let_def)

theorem chunk_count_witness:
  "split_paragraphs (''a'' @ sep @ sep @ ''b'') = [''a'', '''', ''b''] \<and>
   count_sep (''a'' @ sep @ sep @ ''b'') = 2 \<and>
   length [''a'', '''', ''b''] = count_sep (''a'' @ sep @ sep @ ''b'') + 1"
proof -
  have run: "split_paragraphs (''a'' @ sep @ sep @ ''b'') = [''a'', '''', ''b'']"
    by code_simp
  have n: "count_sep (''a'' @ sep @ sep @ ''b'') = 2"
    by code_simp
  from chunk_count [of toy_emb "''a'' @ sep @ sep @ ''b''"] run
  have "length [''a'', '''', ''b''] = count_sep (''a'' @ sep @ sep @ ''b'') + 1"
    by simp
  with run n show ?thesis by blast
qed

text \<open>
  C3, as the code has it.  For a model whose vectors all have \<open>n\<close> components
  and every text, \<open>chunk_and_embed_text\<close> returns as many vectors as chunks,
  each of \<open>n\<close> components, the vector at position \<open>i\<close> being the embedding of
  the chunk at position \<open>i\<close>.  The index built from these vectors stores them
  in the same order.  For every query, each result slot in which the search
  returns the position of a stored vector lies within the chunk list, its
  distance is the distance between the query and the embedding of the chunk at
  that position, and \<open>search_query\<close> returns that chunk in that slot; when the
  text has at least five chunks, all five slots are such slots.
\<close>

theorem chunk_embed_alignment:
  assumes "fixed_dim emb n"
    and "chunk_and_embed_text emb text = (chunks, embeddings)"
  shows "length embeddings = length chunks \<and>
         (\<forall>i<length chunks. embeddings ! i = emb (chunks ! i) \<and> length (embeddings ! i) = n) \<and>
         (\<exists>index D I r.
            create_faiss_index embeddings = Inr index \<and>
            d index = n \<and> xb index = embeddings \<and>
            index_search index (encode emb [query]) 5 = Inr ([D], [I]) \<and>
            search_query emb query index chunks = Inr r \<and>
            (\<forall>j<5. I ! j \<noteq> - 1 \<longrightarrow>
               0 \<le> I ! j \<and> I ! j < int (length chunks) \<and>
               D ! j = fvec_L2sqr (emb query) (emb (chunks ! nat (I ! j))) \<and>
               r ! j = chunks ! nat (I ! j)) \<and>
            (5 \<le> length chunks \<longrightarrow> (\<forall>j<5. I ! j \<noteq> - 1)))"
proof -
  from assms(2) have chunks: "chunks = split_paragraphs text"
    and emb: "embeddings = map emb chunks"
    by (auto simp: chunk_and_embed_text_def encode_def Let_def)
  have ne: "chunks \<noteq> []"
    by (simp add: chunks split_paragraphs_def split_acc_not_Nil)
  have len: "length embeddings = length chunks"
    by (simp add: emb)
  have rows: "\<forall>i<length chunks. embeddings ! i = emb (chunks ! i) \<and> length (embeddings ! i) = n"
    using assms(1) by (simp add: emb fixed_dim_def)
  let ?index = "\<lparr>d = n, xb = embeddings\<rparr>"
  let ?knn = "knn_L2sqr embeddings (emb query) 5"
  let ?D = "map fst ?knn" and ?I = "map snd ?knn"
  have build: "create_faiss_index embeddings = Inr ?index"
    using create_faiss_index_encode [OF assms(1) ne] by (simp add: emb encode_def)
  have dim: "length (emb query) = n"
    using assms(1) by (simp add: fixed_dim_def)
  have search: "index_search ?index (encode emb [query]) 5 = Inr ([?D], [?I])"
    using dim by (simp add: encode_def index_search_single)
  obtain r where g: "gather chunks ?I = Inr r"
    using gather_labels_ok [of chunks embeddings "emb query" 5] ne len by auto
  then have run: "search_query emb query ?index chunks = Inr r"
    using dim by (simp add: search_query_unfold)
  have slots: "\<forall>j<5. ?I ! j \<noteq> - 1 \<longrightarrow>
      0 \<le> ?I ! j \<and> ?I ! j < int (length chunks) \<and>
      ?D ! j = fvec_L2sqr (emb query) (emb (chunks ! nat (?I ! j))) \<and>
      r ! j = chunks ! nat (?I ! j)"
  proof (intro allI impI)
    fix j :: nat
    assume j: "j < 5" and real: "?I ! j \<noteq> - 1"
    then have nth: "?I ! j = snd (?knn ! j)" "?D ! j = fst (?knn ! j)"
      by (simp_all add: length_knn)
    from knn_slot [of j 5 embeddings "emb query"] j real
    have range: "0 \<le> ?I ! j" "?I ! j < int (length chunks)"
      and dis: "?D ! j = fvec_L2sqr (emb query) (embeddings ! nat (?I ! j))"
      by (simp_all add: nth len)
    from range have "nat (?I ! j) < length chunks" by simp
    with rows have "embeddings ! nat (?I ! j) = emb (chunks ! nat (?I ! j))" by blast
    with dis have dis': "?D ! j = fvec_L2sqr (emb query) (emb (chunks ! nat (?I ! j)))"
      by simp
    from gather_nth [OF g, of j] j have "getitem chunks (?I ! j) = Inr (r ! j)"
      by (simp add: length_knn)
    with range have "r ! j = chunks ! nat (?I ! j)"
      by (simp add: getitem_nonneg)
    with range dis' show "0 \<le> ?I ! j \<and> ?I ! j < int (length chunks) \<and>
      ?D ! j = fvec_L2sqr (emb query) (emb (chunks ! nat (?I ! j))) \<and>
      r ! j = chunks ! nat (?I ! j)"
      by blast
  qed
  have full: "5 \<le> length chunks \<longrightarrow> (\<forall>j<5. ?I ! j \<noteq> - 1)"
  proof (intro impI allI)
    fix j :: nat
    assume five: "5 \<le> length chunks" and j: "j < 5"
    then have "?I = take 5 (map snd (ranked embeddings (emb query)))"
      by (simp add: knn_enough take_map len)
    moreover from j have "?I ! j \<in> set ?I"
      by (simp add: length_knn)
    ultimately have "?I ! j \<in> set (map snd (ranked embeddings (emb query)))"
      by (metis in_set_takeD)
    with ranked_labels_take [of embeddings "emb query"] have "0 \<le> ?I ! j"
      by blast
    then show "?I ! j \<noteq> - 1" by simp
  qed
  have index: "d ?index = n" "xb ?index = embeddings"
    by simp_all
  from build index search run slots full
  have "\<exists>index D I r.
            create_faiss_index embeddings = Inr index \<and>
            d index = n \<and> xb index = embeddings \<and>
            index_search index (encode emb [query]) 5 = Inr ([D], [I]) \<and>
            search_query emb query index chunks = Inr r \<and>
            (\<forall>j<5. I ! j \<noteq> - 1 \<longrightarrow>
               0 \<le> I ! j \<and> I ! j < int (length chunks) \<and>
               D ! j = fvec_L2sqr (emb query) (emb (chunks ! nat (I ! j))) \<and>
               r ! j = chunks ! nat (I ! j)) \<and>
            (5 \<le> length chunks \<longrightarrow> (\<forall>j<5. I ! j \<noteq> - 1))"
    by blast
  with len rows show ?thesis by blast
qed

theorem chunk_embed_alignment_witness:
  "fixed_dim toy_emb 1 \<and>
   chunk_and_embed_text toy_emb (''a'' @ sep @ ''bb'' @ sep @ ''ccc'' @ sep @ ''dddd'' @ sep @ ''eeeee'') =
     ([''a'', ''bb'', ''ccc'', ''dddd'', ''eeeee''], [[1], [2], [3], [4], [5]]) \<and>
   length [[1], [2], [3], [4], [5 :: real]] = length [''a'', ''bb'', ''ccc'', ''dddd'', ''eeeee''] \<and>
   5 \<le> length [''a'', ''bb'', ''ccc'', ''dddd'', ''eeeee''] \<and>
   create_faiss_index [[1], [2], [3], [4], [5]] = Inr \<lparr>d = 1, xb = [[1], [2], [3], [4], [5]]\<rparr> \<and>
   index_search \<lparr>d = 1, xb = [[1], [2], [3], [4], [5]]\<rparr> (encode toy_emb [''ccc'']) 5 =
     Inr ([[0, 1, 1, 4, 4]], [[2, 1, 3, 0, 4]]) \<and>
   search_query toy_emb ''ccc'' \<lparr>d = 1, xb = [[1], [2], [3], [4], [5]]\<rparr>
       [''a'', ''bb'', ''ccc'', ''dddd'', ''eeeee''] =
     Inr [''ccc'', ''bb'', ''dddd'', ''a'', ''eeeee'']"
proof -
  have h1: "fixed_dim toy_emb 1"
    by (simp add: fixed_dim_def toy_emb_def)
  have h2: "chunk_and_embed_text toy_emb
      (''a'' @ sep @ ''bb'' @ sep @ ''ccc'' @ sep @ ''dddd'' @ sep @ ''eeeee'') =
      ([''a'', ''bb'', ''ccc'', ''dddd'', ''eeeee''], [[1], [2], [3], [4], [5]])"
    by code_simp
  have five: "5 \<le> length [''a'', ''bb'', ''ccc'', ''dddd'', ''eeeee'']"
    by simp
  have build: "create_faiss_index [[1], [2], [3], [4], [5]] =
      Inr \<lparr>d = 1, xb = [[1], [2], [3], [4], [5]]\<rparr>"
    by code_simp
  have search: "index_search \<lparr>d = 1, xb = [[1], [2], [3], [4], [5]]\<rparr>
      (encode toy_emb [''ccc'']) 5 = Inr ([[0, 1, 1, 4, 4]], [[2, 1, 3, 0, 4]])"
    by code_simp
  have run: "search_query toy_emb ''ccc'' \<lparr>d = 1, xb = [[1], [2], [3], [4], [5]]\<rparr>
      [''a'', ''bb'', ''ccc'', ''dddd'', ''eeeee''] = Inr [''ccc'', ''bb'', ''dddd'', ''a'', ''eeeee'']"
    by code_simp
  from chunk_embed_alignment [OF h1 h2, where query = "''ccc''"]
  have "length [[1], [2], [3], [4], [5 :: real]] = length [''a'', ''bb'', ''ccc'', ''dddd'', ''eeeee'']"
    by (rule conjunct1)
  with h1 h2 five build search run show ?thesis by blast
qed

text \<open>
  The claim C3 as stated fails on a text of two chunks: the third slot of the
  search holds the position \<open>-1\<close>, which is the position of no vector, with a
  distance that is not the distance to any chunk, and \<open>search_query\<close> returns
  the last chunk in that slot.
\<close>

theorem chunk_embed_alignment_counterexample:
  "chunk_and_embed_text toy_emb (''ab'' @ sep @ ''c'') = ([''ab'', ''c''], [[2], [1]]) \<and>
   create_faiss_index [[2], [1]] = Inr \<lparr>d = 1, xb = [[2], [1]]\<rparr> \<and>
   index_search \<lparr>d = 1, xb = [[2], [1]]\<rparr> (encode toy_emb [''ab'']) 5 =
     Inr ([[0, 1, FLT_MAX, FLT_MAX, FLT_MAX]], [[0, 1, - 1, - 1, - 1]]) \<and>
   search_query toy_emb ''ab'' \<lparr>d = 1, xb = [[2], [1]]\<rparr> [''ab'', ''c''] =
     Inr [''ab'', ''c'', ''c'', ''c'', ''c''] \<and>
   \<not> (0 \<le> [0, 1, - 1, - 1, - 1 :: int] ! 2) \<and>
   [''ab'', ''c'', ''c'', ''c'', ''c''] ! 2 = ''c'' \<and>
   [0, 1, FLT_MAX, FLT_MAX, FLT_MAX] ! 2 \<noteq> fvec_L2sqr (toy_emb ''ab'') (toy_emb ''c'')"
proof -
  have "chunk_and_embed_text toy_emb (''ab'' @ sep @ ''c'') = ([''ab'', ''c''], [[2], [1]])"
    by code_simp
  moreover have "create_faiss_index [[2], [1]] = Inr \<lparr>d = 1, xb = [[2], [1]]\<rparr>"
    by code_simp
  moreover have "index_search \<lparr>d = 1, xb = [[2], [1]]\<rparr> (encode toy_emb [''ab'']) 5 =
      Inr ([[0, 1, FLT_MAX, FLT_MAX, FLT_MAX]], [[0, 1, - 1, - 1, - 1]])"
    by code_simp
  moreover have "search_query toy_emb ''ab'' \<lparr>d = 1, xb = [[2], [1]]\<rparr> [''ab'', ''c''] =
      Inr [''ab'', ''c'', ''c'', ''c'', ''c'']"
    by code_simp
  moreover have "[0, 1, FLT_MAX, FLT_MAX, FLT_MAX] ! 2 \<noteq>
      fvec_L2sqr (toy_emb ''ab'') (toy_emb ''c'')"
    by (simp add: FLT_MAX_def fvec_L2sqr_def toy_emb_def)
  ultimately show ?thesis by simp
qed

text \<open>
  C7.  \<open>create_faiss_index\<close> sizes the index to the length of the first vector;
  it fails with DimensionMismatchError when another vector has a different
  length, and otherwise stores all vectors in their order.  In the index it
  returns, the vector inserted at position \<open>i\<close> is found again: a search for
  that vector puts first, at distance 0, a position holding the same vector,
  which is \<open>i\<close> itself when the vectors are pairwise different, and a search
  that asks for at least as many results as there are vectors returns the
  position \<open>i\<close> itself at distance 0.
\<close>

theorem create_faiss_index_builds:
  "create_faiss_index (v # vs) =
     (if list_all (\<lambda>u. length u = length v) vs
      then Inr \<lparr>d = length v, xb = v # vs\<rparr> else Inl DimensionMismatchError) \<and>
   (create_faiss_index vectors = Inr index \<and> i < length vectors \<and> 0 < k \<longrightarrow>
      xb index = vectors \<and> ntotal index = length vectors \<and>
      (\<exists>D I. index_search index [vectors ! i] k = Inr ([D], [I]) \<and>
         D ! 0 = 0 \<and> 0 \<le> I ! 0 \<and> I ! 0 < int (length vectors) \<and>
         vectors ! nat (I ! 0) = vectors ! i \<and>
         (distinct vectors \<longrightarrow> I ! 0 = int i) \<and>
         (length vectors \<le> k \<longrightarrow> (\<exists>j<k. I ! j = int i \<and> D ! j = 0))))"
proof (intro conjI impI)
  show "create_faiss_index (v # vs) =
     (if list_all (\<lambda>u. length u = length v) vs
      then Inr \<lparr>d = length v, xb = v # vs\<rparr> else Inl DimensionMismatchError)"
    by (rule create_faiss_index_Cons)
next
  assume "create_faiss_index vectors = Inr index \<and> i < length vectors \<and> 0 < k"
  then have built: "create_faiss_index vectors = Inr index"
    and i: "i < length vectors" and k: "0 < k"
    by simp_all
  from create_faiss_index_Inr [OF built]
  have ne: "vectors \<noteq> []" and xb: "xb index = vectors"
    and dims: "list_all (\<lambda>u. length u = d index) vectors"
    by simp_all
  show "xb index = vectors" by (rule xb)
  show "ntotal index = length vectors" by (simp add: ntotal_def xb)
  let ?x = "vectors ! i"
  let ?knn = "knn_L2sqr vectors ?x k"
  let ?l = "snd (hd (ranked vectors ?x))"
  from dims i have dimx: "length ?x = d index"
    by (simp add: list_all_length)
  have search: "index_search index [?x] k = Inr ([map fst ?knn], [map snd ?knn])"
    using dimx by (simp add: index_search_single xb)
  have first: "map fst ?knn ! 0 = fst (hd (ranked vectors ?x))"
      "map snd ?knn ! 0 = ?l"
    using k knn_first [OF k ne, of ?x] by (simp_all add: length_knn)
  from hd_ranked_self [OF i]
  have zero: "fst (hd (ranked vectors ?x)) = 0"
    and range: "0 \<le> ?l" "?l < int (length vectors)"
    and dis: "fvec_L2sqr ?x (vectors ! nat ?l) = 0"
    by simp_all
  from range have l: "nat ?l < length vectors" by simp
  with dims have "length (vectors ! nat ?l) = d index"
    by (simp add: list_all_length)
  with dimx have "length ?x = length (vectors ! nat ?l)" by simp
  from fvec_L2sqr_zero_eq [OF this dis] have same: "vectors ! nat ?l = ?x" by simp
  have "distinct vectors \<longrightarrow> ?l = int i"
  proof
    assume "distinct vectors"
    with same l i have "nat ?l = i"
      by (simp add: nth_eq_iff_index_eq)
    with range show "?l = int i" by simp
  qed
  moreover have "length vectors \<le> k \<longrightarrow>
      (\<exists>j<k. map snd ?knn ! j = int i \<and> map fst ?knn ! j = 0)"
  proof
    assume all: "length vectors \<le> k"
    from i have "int i \<in> set (map snd (ranked vectors ?x))"
      by (simp only: set_labels_ranked) simp
    then obtain j where j: "j < length vectors"
      and at: "map snd (ranked vectors ?x) ! j = int i"
      by (auto simp: in_set_conv_nth length_ranked)
    from j all have jk: "j < k" by simp
    from all j at have label: "snd (?knn ! j) = int i"
      by (simp add: knn_short nth_append length_ranked)
    with knn_slot [of j k vectors ?x] jk
    have "fst (?knn ! j) = fvec_L2sqr ?x (vectors ! nat (int i))"
      by simp
    then have "fst (?knn ! j) = 0"
      by (simp add: fvec_L2sqr_self)
    with label jk show "\<exists>j<k. map snd ?knn ! j = int i \<and> map fst ?knn ! j = 0"
      by (auto simp: length_knn)
  qed
  ultimately
  show "\<exists>D I. index_search index [vectors ! i] k = Inr ([D], [I]) \<and>
         D ! 0 = 0 \<and> 0 \<le> I ! 0 \<and> I ! 0 < int (length vectors) \<and>
         vectors ! nat (I ! 0) = vectors ! i \<and>
         (distinct vectors \<longrightarrow> I ! 0 = int i) \<and>
         (length vectors \<le> k \<longrightarrow> (\<exists>j<k. I ! j = int i \<and> D ! j = 0))"
    using search first zero range same by simp
qed

theorem create_faiss_index_builds_witness:
  "create_faiss_index [[1, 2], [3, 4], [5, 6]] = Inr \<lparr>d = 2, xb = [[1, 2], [3, 4], [5, 6]]\<rparr> \<and>
   (1 :: nat) < length [[1, 2], [3, 4], [5, 6 :: real]] \<and> (0 :: nat) < 2 \<and>
   distinct [[1, 2], [3, 4], [5, 6 :: real]] \<and>
   index_search \<lparr>d = 2, xb = [[1, 2], [3, 4], [5, 6]]\<rparr> [[[1, 2], [3, 4], [5, 6]] ! 1] 2 =
     Inr ([[0, 8]], [[1, 0]]) \<and>
   [1, 0 :: int] ! 0 = int 1 \<and>
   create_faiss_index [[1, 2], [3]] = Inl DimensionMismatchError"
proof -
  have h1: "create_faiss_index [[1, 2], [3, 4], [5, 6]] =
      Inr \<lparr>d = 2, xb = [[1, 2], [3, 4], [5, 6]]\<rparr>"
    by code_simp
  have h2: "(1 :: nat) < length [[1, 2], [3, 4], [5, 6 :: real]]"
    by simp
  have h3: "(0 :: nat) < 2"
    by simp
  have h4: "distinct [[1, 2], [3, 4], [5, 6 :: real]]"
    by simp
  have search: "index_search \<lparr>d = 2, xb = [[1, 2], [3, 4], [5, 6]]\<rparr>
      [[[1, 2], [3, 4], [5, 6]] ! 1] 2 = Inr ([[0, 8]], [[1, 0]])"
    by code_simp
  from create_faiss_index_builds
    [where v = "[1, 2]" and vs = "[[3]]" and vectors = "[[1, 2], [3, 4], [5, 6]]"
       and index = "\<lparr>d = 2, xb = [[1, 2], [3, 4], [5, 6]]\<rparr>" and i = 1 and k = 2]
  have ragged: "create_faiss_index [[1, 2], [3]] = Inl DimensionMismatchError"
    and found: "\<exists>D I. index_search \<lparr>d = 2, xb = [[1, 2], [3, 4], [5, 6]]\<rparr>
        [[[1, 2], [3, 4], [5, 6]] ! 1] 2 = Inr ([D], [I]) \<and> I ! 0 = int 1"
    using h1 h2 h3 h4 by auto
  from found search have "[1, 0 :: int] ! 0 = int 1"
    by auto
  with h1 h2 h3 h4 search ragged show ?thesis by blast
qed

text \<open>
  C6.  For a model whose vectors all have \<open>n\<close> components: the index built from
  the embeddings of the chunks A, B, C, D, E answers the query C with five
  results, one of which is position 2 at squared distance 0, mapped back to
  the chunk C.  The text alpha, blank line, beta, blank line, gamma is chunked
  into alpha, beta, gamma, and the index built from their embeddings answers
  the query alpha with position 0 at distance 0 in the first slot, mapped back
  to the chunk alpha.
\<close>

theorem self_retrieval:
  assumes "fixed_dim emb n"
  shows "(\<exists>index D I r.
            create_faiss_index (encode emb [''A'', ''B'', ''C'', ''D'', ''E'']) = Inr index \<and>
            index_search index (encode emb [''C'']) 5 = Inr ([D], [I]) \<and>
            search_query emb ''C'' index [''A'', ''B'', ''C'', ''D'', ''E''] = Inr r \<and>
            length r = 5 \<and>
            (\<exists>j<5. I ! j = 2 \<and> D ! j = 0 \<and> r ! j = ''C'')) \<and>
         split_paragraphs (''alpha'' @ sep @ ''beta'' @ sep @ ''gamma'') =
            [''alpha'', ''beta'', ''gamma''] \<and>
         (\<exists>index D I r.
            create_faiss_index (encode emb [''alpha'', ''beta'', ''gamma'']) = Inr index \<and>
            index_search index (encode emb [''alpha'']) 5 = Inr ([D], [I]) \<and>
            search_query emb ''alpha'' index [''alpha'', ''beta'', ''gamma''] = Inr r \<and>
            I ! 0 = 0 \<and> D ! 0 = 0 \<and> r ! 0 = ''alpha'')"
proof (intro conjI)
  let ?chunks = "[''A'', ''B'', ''C'', ''D'', ''E'']"
  let ?y = "encode emb ?chunks"
  let ?index = "\<lparr>d = n, xb = ?y\<rparr>"
  let ?knn = "knn_L2sqr ?y (emb ''C'') 5"
  let ?D = "map fst ?knn" and ?I = "map snd ?knn"
  have leny: "length ?y = 5" by (simp add: encode_def)
  have build: "create_faiss_index ?y = Inr ?index"
    by (rule create_faiss_index_encode [OF assms]) simp
  have dim: "length (emb ''C'') = n"
    using assms by (simp add: fixed_dim_def)
  have search: "index_search ?index (encode emb [''C'']) 5 = Inr ([?D], [?I])"
    using dim by (simp add: encode_def index_search_single)
  obtain r where g: "gather ?chunks ?I = Inr r"
    using gather_labels_ok [of ?chunks ?y "emb ''C''" 5] leny by auto
  then have run: "search_query emb ''C'' ?index ?chunks = Inr r"
    using dim by (simp add: search_query_unfold)
  from gather_length [OF g] have lenr: "length r = 5"
    by (simp add: length_knn)
  have "?I = map snd (ranked ?y (emb ''C''))"
    using leny by (simp add: knn_enough length_ranked)
  then have "set ?I = int ` {..<5}"
    using set_labels_ranked [of ?y "emb ''C''"] leny by simp
  then have "2 \<in> set ?I" by (simp add: image_iff)
  then obtain j where j: "j < 5" and Ij: "?I ! j = 2"
    by (auto simp: in_set_conv_nth length_knn)
  from knn_slot [of j 5 ?y "emb ''C''"] j Ij
  have "?D ! j = fvec_L2sqr (emb ''C'') (?y ! 2)"
    by (simp add: length_knn)
  then have Dj: "?D ! j = 0"
    by (simp add: encode_def fvec_L2sqr_self)
  from gather_nth [OF g, of j] j Ij have "getitem ?chunks 2 = Inr (r ! j)"
    by (simp add: length_knn)
  then have rj: "r ! j = ''C''"
    by (simp add: getitem_def)
  from j Ij Dj rj have "\<exists>j<5. ?I ! j = 2 \<and> ?D ! j = 0 \<and> r ! j = ''C''" by blast
  with build search run lenr
  show "\<exists>index D I r.
            create_faiss_index (encode emb [''A'', ''B'', ''C'', ''D'', ''E'']) = Inr index \<and>
            index_search index (encode emb [''C'']) 5 = Inr ([D], [I]) \<and>
            search_query emb ''C'' index [''A'', ''B'', ''C'', ''D'', ''E''] = Inr r \<and>
            length r = 5 \<and>
            (\<exists>j<5. I ! j = 2 \<and> D ! j = 0 \<and> r ! j = ''C'')"
    by blast
next
  show "split_paragraphs (''alpha'' @ sep @ ''beta'' @ sep @ ''gamma'') =
            [''alpha'', ''beta'', ''gamma'']"
    by (simp add: split_paragraphs_def sep_def NL_def)
next
  let ?chunks = "[''alpha'', ''beta'', ''gamma'']"
  let ?y = "encode emb ?chunks"
  let ?x = "emb ''alpha''"
  let ?index = "\<lparr>d = n, xb = ?y\<rparr>"
  let ?knn = "knn_L2sqr ?y ?x 5"
  let ?D = "map fst ?knn" and ?I = "map snd ?knn"
  have leny: "length ?y = 3" by (simp add: encode_def)
  have build: "create_faiss_index ?y = Inr ?index"
    by (rule create_faiss_index_encode [OF assms]) simp
  have dim: "length ?x = n"
    using assms by (simp add: fixed_dim_def)
  have search: "index_search ?index (encode emb [''alpha'']) 5 = Inr ([?D], [?I])"
    using dim by (simp add: encode_def index_search_single)
  obtain r where g: "gather ?chunks ?I = Inr r"
    using gather_labels_ok [of ?chunks ?y ?x 5] leny by auto
  then have run: "search_query emb ''alpha'' ?index ?chunks = Inr r"
    using dim by (simp add: search_query_unfold)
  have y: "?y = ?x # encode emb [''beta'', ''gamma'']"
    by (simp add: encode_def)
  have "?knn ! 0 = hd (ranked ?y ?x)"
    by (rule knn_first) (simp_all add: encode_def)
  also have "\<dots> = (0, 0)"
    unfolding y by (rule hd_ranked_first)
  finally have first: "?knn ! 0 = (0, 0)" .
  then have I0: "?I ! 0 = 0" and D0: "?D ! 0 = 0"
    by (simp_all add: length_knn)
  from gather_nth [OF g, of 0] I0 have "getitem ?chunks 0 = Inr (r ! 0)"
    by (simp add: length_knn)
  then have r0: "r ! 0 = ''alpha''"
    by (simp add: getitem_def)
  from build search run I0 D0 r0
  show "\<exists>index D I r.
            create_faiss_index (encode emb [''alpha'', ''beta'', ''gamma'']) = Inr index \<and>
            index_search index (encode emb [''alpha'']) 5 = Inr ([D], [I]) \<and>
            search_query emb ''alpha'' index [''alpha'', ''beta'', ''gamma''] = Inr r \<and>
            I ! 0 = 0 \<and> D ! 0 = 0 \<and> r ! 0 = ''alpha''"
    by blast
qed

theorem self_retrieval_witness:
  "fixed_dim toy_emb 1 \<and>
   create_faiss_index (encode toy_emb [''alpha'', ''beta'', ''gamma'']) =
     Inr \<lparr>d = 1, xb = [[5], [4], [5]]\<rparr> \<and>
   index_search \<lparr>d = 1, xb = [[5], [4], [5]]\<rparr> (encode toy_emb [''alpha'']) 5 =
     Inr ([[0, 0, 1, FLT_MAX, FLT_MAX]], [[0, 2, 1, - 1, - 1]]) \<and>
   search_query toy_emb ''alpha'' \<lparr>d = 1, xb = [[5], [4], [5]]\<rparr> [''alpha'', ''beta'', ''gamma''] =
     Inr [''alpha'', ''gamma'', ''beta'', ''gamma'', ''gamma''] \<and>
   [''alpha'', ''gamma'', ''beta'', ''gamma'', ''gamma''] ! 0 = ''alpha'' \<and>
   split_paragraphs (''alpha'' @ sep @ ''beta'' @ sep @ ''gamma'') = [''alpha'', ''beta'', ''gamma'']"
proof -
  have h: "fixed_dim toy_emb 1"
    by (simp add: fixed_dim_def toy_emb_def)
  have build: "create_faiss_index (encode toy_emb [''alpha'', ''beta'', ''gamma'']) =
      Inr \<lparr>d = 1, xb = [[5], [4], [5]]\<rparr>"
    by code_simp
  have search: "index_search \<lparr>d = 1, xb = [[5], [4], [5]]\<rparr> (encode toy_emb [''alpha'']) 5 =
      Inr ([[0, 0, 1, FLT_MAX, FLT_MAX]], [[0, 2, 1, - 1, - 1]])"
    by code_simp
  have run: "search_query toy_emb ''alpha'' \<lparr>d = 1, xb = [[5], [4], [5]]\<rparr>
      [''alpha'', ''beta'', ''gamma''] = Inr [''alpha'', ''gamma'', ''beta'', ''gamma'', ''gamma'']"
    by code_simp
  from self_retrieval [OF h]
  have split: "split_paragraphs (''alpha'' @ sep @ ''beta'' @ sep @ ''gamma'') =
      [''alpha'', ''beta'', ''gamma'']"
    and "\<exists>index D I r.
      create_faiss_index (encode toy_emb [''alpha'', ''beta'', ''gamma'']) = Inr index \<and>
      index_search index (encode toy_emb [''alpha'']) 5 = Inr ([D], [I]) \<and>
      search_query toy_emb ''alpha'' index [''alpha'', ''beta'', ''gamma''] = Inr r \<and>
      I ! 0 = 0 \<and> D ! 0 = 0 \<and> r ! 0 = ''alpha''"
    by blast+
  then obtain index r where
    "create_faiss_index (encode toy_emb [''alpha'', ''beta'', ''gamma'']) = Inr index"
    and "search_query toy_emb ''alpha'' index [''alpha'', ''beta'', ''gamma''] = Inr r"
    and "r ! 0 = ''alpha''"
    by blast
  with build run
  have first: "[''alpha'', ''gamma'', ''beta'', ''gamma'', ''gamma''] ! 0 = ''alpha''"
    by simp
  with h build search run split show ?thesis by blast
qed



end
